theory Spec2Isabelle
  imports Complex_Main "HOL-Library.Word"
begin

unbundle bit_operations_syntax

section \<open>The Atlas Scientific I2C channel (atlasrpi/i2c.py)\<close>

text \<open>
  The class \<^verbatim>\<open>AtlasI2c\<close> owns two unbuffered file streams on \<^verbatim>\<open>/dev/i2c-N\<close>
  and the field \<^verbatim>\<open>current_addr\<close>. Everything it does to the outside world is a call
  on one of the two streams (\<^verbatim>\<open>fcntl.ioctl\<close>, \<^verbatim>\<open>write\<close>, \<^verbatim>\<open>read\<close>) or a
  \<^verbatim>\<open>time.sleep\<close>. The embedding keeps the history of these calls in the state and
  asks a bus, a function of that history, for the outcome of each call.
\<close>

subsection \<open>Data\<close>

type_synonym byte = "8 word"

text \<open>A Python \<^verbatim>\<open>str\<close> is a sequence of Unicode code points.\<close>

type_synonym str = "nat list"

definition str_of :: "string \<Rightarrow> str" where
  "str_of cs = map of_char cs"

definition is_ascii :: "str \<Rightarrow> bool" where
  "is_ascii s = list_all (\<lambda>c. c < 128) s"

text \<open>
  The exceptions the class can raise. \<^verbatim>\<open>Exception\<close> carries its message, an ASCII
  text. A failing system call on a stream raises \<^verbatim>\<open>OSError\<close>, which Python 3 also
  names \<^verbatim>\<open>IOError\<close>.
\<close>

datatype py_error =
    IOError
  | StopIteration
  | Exception string
  | UnicodeEncodeError
  | UnicodeDecodeError

datatype stream = FileRead | FileWrite

datatype event =
    Ioctl stream nat int
  | Write "byte list"
  | Read nat
  | Sleep real

text \<open>
  The bus decides, from the calls made so far, whether the next call succeeds:
  \<open>ioctl_ok\<close> and \<open>write_ok\<close> are False where the call raises \<^verbatim>\<open>IOError\<close>, and
  \<open>read_res\<close> is None where it raises and the bytes of the device otherwise.
\<close>

record bus =
  ioctl_ok :: "event list \<Rightarrow> stream \<Rightarrow> int \<Rightarrow> bool"
  write_ok :: "event list \<Rightarrow> byte list \<Rightarrow> bool"
  read_res :: "event list \<Rightarrow> nat \<Rightarrow> byte list option"

record atlas_i2c =
  current_addr :: int
  trace :: "event list"

definition long_timeout :: real where
  "long_timeout = 3 / 2"

definition short_timeout :: real where
  "short_timeout = 1 / 2"

definition default_bus :: int where
  "default_bus = 1"

definition default_address :: int where
  "default_address = 99"

definition I2C_SLAVE :: nat where
  "I2C_SLAVE = 0x703"

definition log_event :: "event \<Rightarrow> atlas_i2c \<Rightarrow> atlas_i2c" where
  "log_event e st = st\<lparr>trace := trace st @ [e]\<rparr>"

subsection \<open>Python's text operations\<close>

text \<open>
  \<^verbatim>\<open>str.encode('UTF-8')\<close>: one to four bytes per code point; a surrogate code point
  raises \<^verbatim>\<open>UnicodeEncodeError\<close>. A \<^verbatim>\<open>str\<close> holds no code point from 0x110000 on.
\<close>

definition utf8_of_cp :: "nat \<Rightarrow> py_error + byte list" where
  "utf8_of_cp c =
     (if c < 0x80 then Inr [of_nat c]
      else if c < 0x800 then Inr [of_nat (0xC0 + c div 64), of_nat (0x80 + c mod 64)]
      else if 0xD800 \<le> c \<and> c \<le> 0xDFFF then Inl UnicodeEncodeError
      else if c < 0x10000 then
        Inr [of_nat (0xE0 + c div 4096), of_nat (0x80 + c div 64 mod 64),
             of_nat (0x80 + c mod 64)]
      else if c < 0x110000 then
        Inr [of_nat (0xF0 + c div 262144), of_nat (0x80 + c div 4096 mod 64),
             of_nat (0x80 + c div 64 mod 64), of_nat (0x80 + c mod 64)]
      else Inl UnicodeEncodeError)"

fun encode_utf8 :: "str \<Rightarrow> py_error + byte list" where
  "encode_utf8 [] = Inr []"
| "encode_utf8 (c # cs) =
     (case utf8_of_cp c of
        Inl e \<Rightarrow> Inl e
      | Inr bs \<Rightarrow> (case encode_utf8 cs of Inl e \<Rightarrow> Inl e | Inr r \<Rightarrow> Inr (bs @ r)))"

text \<open>
  \<^verbatim>\<open>bytes.decode('UTF-8')\<close>, the strict decoder: a malformed, overlong or surrogate
  sequence and a code point above 0x10FFFF raise \<^verbatim>\<open>UnicodeDecodeError\<close>.
\<close>

definition is_cont :: "byte \<Rightarrow> bool" where
  "is_cont b = (0x80 \<le> b \<and> b \<le> 0xBF)"

definition second_ok3 :: "byte \<Rightarrow> byte \<Rightarrow> bool" where
  "second_ok3 b b1 =
     (if b = 0xE0 then 0xA0 \<le> b1 \<and> b1 \<le> 0xBF
      else if b = 0xED then 0x80 \<le> b1 \<and> b1 \<le> 0x9F
      else is_cont b1)"

definition second_ok4 :: "byte \<Rightarrow> byte \<Rightarrow> bool" where
  "second_ok4 b b1 =
     (if b = 0xF0 then 0x90 \<le> b1 \<and> b1 \<le> 0xBF
      else if b = 0xF4 then 0x80 \<le> b1 \<and> b1 \<le> 0x8F
      else is_cont b1)"

definition low6 :: "byte \<Rightarrow> nat" where
  "low6 b = unat (b AND 0x3F)"

definition cons_cp :: "nat \<Rightarrow> py_error + str \<Rightarrow> py_error + str" where
  "cons_cp c r = (case r of Inl e \<Rightarrow> Inl e | Inr s \<Rightarrow> Inr (c # s))"

fun decode_utf8 :: "byte list \<Rightarrow> py_error + str" where
  "decode_utf8 [] = Inr []"
| "decode_utf8 (b # bs) =
     (if b < 0x80 then cons_cp (unat b) (decode_utf8 bs)
      else if 0xC2 \<le> b \<and> b \<le> 0xDF then
        (case bs of
           b1 # r \<Rightarrow>
             if is_cont b1
             then cons_cp (unat (b AND 0x1F) * 64 + low6 b1) (decode_utf8 r)
             else Inl UnicodeDecodeError
         | _ \<Rightarrow> Inl UnicodeDecodeError)
      else if 0xE0 \<le> b \<and> b \<le> 0xEF then
        (case bs of
           b1 # b2 # r \<Rightarrow>
             if second_ok3 b b1 \<and> is_cont b2
             then cons_cp (unat (b AND 0x0F) * 4096 + low6 b1 * 64 + low6 b2)
                    (decode_utf8 r)
             else Inl UnicodeDecodeError
         | _ \<Rightarrow> Inl UnicodeDecodeError)
      else if 0xF0 \<le> b \<and> b \<le> 0xF4 then
        (case bs of
           b1 # b2 # b3 # r \<Rightarrow>
             if second_ok4 b b1 \<and> is_cont b2 \<and> is_cont b3
             then cons_cp (unat (b AND 0x07) * 262144 + low6 b1 * 4096
                             + low6 b2 * 64 + low6 b3)
                    (decode_utf8 r)
             else Inl UnicodeDecodeError
         | _ \<Rightarrow> Inl UnicodeDecodeError)
      else Inl UnicodeDecodeError)"

text \<open>
  \<^verbatim>\<open>str.upper()\<close> on the ASCII repertoire: the letters a to z move to A to Z and
  every other ASCII character stays. Python's mapping of code points from 128 on is not
  modelled (it sends U+017F to S, for one), so every statement below that depends on
  the class of a command is for ASCII commands.
\<close>

definition upper_cp :: "nat \<Rightarrow> nat" where
  "upper_cp c = (if 97 \<le> c \<and> c \<le> 122 then c - 32 else c)"

definition upper :: "str \<Rightarrow> str" where
  "upper s = map upper_cp s"

definition startswith :: "str \<Rightarrow> str \<Rightarrow> bool" where
  "startswith s p = (take (length p) s = p)"

text \<open>\<^verbatim>\<open>"{}".format(n)\<close> for an integer that is not negative: its decimal digits.\<close>

fun format_nat :: "nat \<Rightarrow> string" where
  "format_nat n =
     (if n < 10 then [''0123456789'' ! n]
      else format_nat (n div 10) @ [''0123456789'' ! (n mod 10)])"

declare format_nat.simps [simp del]

subsection \<open>The methods of AtlasI2c\<close>

text \<open>
  Every method takes the bus and the object and returns the value or the exception,
  with the object as the call leaves it.
\<close>

definition set_i2c_address ::
  "bus \<Rightarrow> int \<Rightarrow> atlas_i2c \<Rightarrow> (py_error + unit) \<times> atlas_i2c" where
  "set_i2c_address env addr st =
     (let st1 = log_event (Ioctl FileRead I2C_SLAVE addr) st in
      if \<not> ioctl_ok env (trace st) FileRead addr then (Inl IOError, st1)
      else
        let st2 = log_event (Ioctl FileWrite I2C_SLAVE addr) st1 in
        if \<not> ioctl_ok env (trace st1) FileWrite addr then (Inl IOError, st2)
        else (Inr (), st2\<lparr>current_addr := addr\<rparr>))"

definition "write" ::
  "bus \<Rightarrow> str \<Rightarrow> atlas_i2c \<Rightarrow> (py_error + unit) \<times> atlas_i2c" where
  "write env string st =
     (case encode_utf8 (string @ [0]) of
        Inl e \<Rightarrow> (Inl e, st)
      | Inr bs \<Rightarrow>
          if write_ok env (trace st) bs then (Inr (), log_event (Write bs) st)
          else (Inl IOError, log_event (Write bs) st))"

text \<open>\<^verbatim>\<open>self.file_read.read(n)\<close> returns at most \<open>n\<close> bytes.\<close>

definition file_read :: "bus \<Rightarrow> event list \<Rightarrow> nat \<Rightarrow> byte list option" where
  "file_read env tr n = map_option (take n) (read_res env tr n)"

definition read_bytes ::
  "bus \<Rightarrow> nat \<Rightarrow> atlas_i2c \<Rightarrow> (py_error + byte list) \<times> atlas_i2c" where
  "read_bytes env num_of_bytes st =
     (let st1 = log_event (Read num_of_bytes) st in
      case file_read env (trace st) num_of_bytes of
        None \<Rightarrow> (Inl IOError, st1)
      | Some res \<Rightarrow>
          (case filter (\<lambda>x. x \<noteq> 0) res of
             [] \<Rightarrow> (Inl StopIteration, st1)
           | reponse_code # response \<Rightarrow>
               if reponse_code = 1
               then (Inr (map (\<lambda>x. x AND NOT 0x80) response), st1)
               else (Inl (Exception (''Error '' @ format_nat (unat reponse_code))), st1)))"

definition read ::
  "bus \<Rightarrow> nat \<Rightarrow> atlas_i2c \<Rightarrow> (py_error + str) \<times> atlas_i2c" where
  "read env num_of_bytes st =
     (case read_bytes env num_of_bytes st of
        (Inl e, st1) \<Rightarrow> (Inl e, st1)
      | (Inr bs, st1) \<Rightarrow> (decode_utf8 bs, st1))"

definition query_bytes ::
  "bus \<Rightarrow> str \<Rightarrow> atlas_i2c \<Rightarrow> (py_error + byte list) \<times> atlas_i2c" where
  "query_bytes env string st =
     (case write env string st of
        (Inl e, st1) \<Rightarrow> (Inl e, st1)
      | (Inr _, st1) \<Rightarrow>
          let string_upper = upper string in
          if startswith string_upper (str_of ''R'')
             \<or> startswith string_upper (str_of ''CAL'')
          then read_bytes env 31 (log_event (Sleep long_timeout) st1)
          else if startswith string_upper (str_of ''SLEEP'')
          then (Inl (Exception ''sleep mode''), st1)
          else read_bytes env 31 (log_event (Sleep short_timeout) st1))"

definition query ::
  "bus \<Rightarrow> str \<Rightarrow> atlas_i2c \<Rightarrow> (py_error + str) \<times> atlas_i2c" where
  "query env string st =
     (case query_bytes env string st of
        (Inl e, st1) \<Rightarrow> (Inl e, st1)
      | (Inr bs, st1) \<Rightarrow> (decode_utf8 bs, st1))"

text \<open>
  The loop of \<^verbatim>\<open>list_i2c_devices\<close> over the addresses still to try: only
  \<^verbatim>\<open>IOError\<close> is caught, any other exception leaves the loop and the method.
\<close>

fun sweep ::
  "bus \<Rightarrow> int list \<Rightarrow> int list \<Rightarrow> atlas_i2c \<Rightarrow> (py_error + int list) \<times> atlas_i2c" where
  "sweep env [] i2c_devices st = (Inr i2c_devices, st)"
| "sweep env (i # rest) i2c_devices st =
     (case set_i2c_address env i st of
        (Inl e, st1) \<Rightarrow>
          if e = IOError then sweep env rest i2c_devices st1 else (Inl e, st1)
      | (Inr _, st1) \<Rightarrow>
          (case read_bytes env 31 st1 of
             (Inl e, st2) \<Rightarrow>
               if e = IOError then sweep env rest i2c_devices st2 else (Inl e, st2)
           | (Inr _, st2) \<Rightarrow> sweep env rest (i2c_devices @ [i]) st2))"

definition list_i2c_devices ::
  "bus \<Rightarrow> atlas_i2c \<Rightarrow> (py_error + int list) \<times> atlas_i2c" where
  "list_i2c_devices env st =
     (let orig_addr = current_addr st in
      case sweep env [0..127] [] st of
        (Inl e, st1) \<Rightarrow> (Inl e, st1)
      | (Inr i2c_devices, st1) \<Rightarrow>
          (case set_i2c_address env orig_addr st1 of
             (Inl e, st2) \<Rightarrow> (Inl e, st2)
           | (Inr _, st2) \<Rightarrow> (Inr i2c_devices, st2)))"

subsection \<open>Buses\<close>

text \<open>
  A bus on which every system call succeeds and every read returns the same outcome.
\<close>

definition const_bus :: "byte list option \<Rightarrow> bus" where
  "const_bus res =
     \<lparr>ioctl_ok = (\<lambda>tr fd a. True), write_ok = (\<lambda>tr bs. True), read_res = (\<lambda>tr n. res)\<rparr>"

text \<open>
  A bus on which the outcome of a call depends on the address alone: \<open>bind a\<close> says
  whether the system accepts the address \<open>a\<close> for a stream, and \<open>resp a\<close> is what a
  read returns while the read stream is bound to \<open>a\<close> (None: the read raises
  \<^verbatim>\<open>IOError\<close>, as it does before the stream is bound). The address the read stream is
  bound to is that of the last accepted \<^verbatim>\<open>ioctl\<close> on it.
\<close>

primrec bound_to :: "(int \<Rightarrow> bool) \<Rightarrow> int option \<Rightarrow> event list \<Rightarrow> int option" where
  "bound_to bind cur [] = cur"
| "bound_to bind cur (e # es) =
     bound_to bind
       (case e of
          Ioctl fd req a \<Rightarrow> if fd = FileRead \<and> bind a then Some a else cur
        | _ \<Rightarrow> cur)
       es"

definition mock_bus :: "(int \<Rightarrow> bool) \<Rightarrow> (int \<Rightarrow> byte list option) \<Rightarrow> bus" where
  "mock_bus bind resp =
     \<lparr>ioctl_ok = (\<lambda>tr fd a. bind a),
      write_ok = (\<lambda>tr bs. True),
      read_res = (\<lambda>tr n. case bound_to bind None tr of None \<Rightarrow> None | Some a \<Rightarrow> resp a)\<rparr>"

text \<open>A frame that \<^verbatim>\<open>read_bytes\<close> accepts: its first byte that is not null is 1.\<close>

definition success_frame :: "byte list \<Rightarrow> bool" where
  "success_frame res =
     (case filter (\<lambda>x. x \<noteq> 0) res of [] \<Rightarrow> False | reponse_code # _ \<Rightarrow> reponse_code = 1)"

text \<open>The bus of the probe scenario: the devices at 99 and 100 answer, no other does.\<close>

definition two_devices :: "int \<Rightarrow> byte list option" where
  "two_devices a = (if a = 99 \<or> a = 100 then Some [1, 0xB1, 0] else None)"

definition any_address :: "int \<Rightarrow> bool" where
  "any_address a = True"

text \<open>The object after \<^verbatim>\<open>AtlasI2c()\<close> has bound both streams to the default address.\<close>

definition opened :: atlas_i2c where
  "opened =
     \<lparr>current_addr = default_address,
      trace = [Ioctl FileRead I2C_SLAVE default_address,
               Ioctl FileWrite I2C_SLAVE default_address]\<rparr>"

text \<open>
  On such a bus the address \<open>a\<close> answers a probe when the system accepts it and the
  read returns a frame that \<^verbatim>\<open>read_bytes\<close> accepts. A sweep over \<open>as\<close> meets
  I/O failures only when every address of \<open>as\<close> either answers, or is refused, or
  makes the read raise \<^verbatim>\<open>IOError\<close>. \<open>probe_calls\<close> are the system calls of one
  round of the loop of \<^verbatim>\<open>list_i2c_devices\<close>.
\<close>

definition answers :: "(int \<Rightarrow> bool) \<Rightarrow> (int \<Rightarrow> byte list option) \<Rightarrow> int \<Rightarrow> bool" where
  "answers bind resp a =
     (bind a \<and> (case resp a of None \<Rightarrow> False | Some res \<Rightarrow> success_frame (take 31 res)))"

definition io_failures_only ::
  "(int \<Rightarrow> bool) \<Rightarrow> (int \<Rightarrow> byte list option) \<Rightarrow> int list \<Rightarrow> bool" where
  "io_failures_only bind resp as =
     list_all (\<lambda>a. answers bind resp a \<or> \<not> bind a \<or> resp a = None) as"

definition probe_calls :: "(int \<Rightarrow> bool) \<Rightarrow> int \<Rightarrow> event list" where
  "probe_calls bind a =
     (if bind a
      then [Ioctl FileRead I2C_SLAVE a, Ioctl FileWrite I2C_SLAVE a, Read 31]
      else [Ioctl FileRead I2C_SLAVE a])"

text \<open>A device at 99 that answers every read with the status 2, a syntax error.\<close>

definition syntax_error_device :: "int \<Rightarrow> byte list option" where
  "syntax_error_device a = (if a = 99 then Some [0, 2, 0xC1] else None)"

section \<open>Properties\<close>

subsection \<open>Auxiliary facts\<close>

lemma msb_clear: "((x::byte) AND NOT 0x80) AND 0x80 = 0"
  by (simp add: and.assoc)

lemma msb_clear_less: "((x::byte) AND NOT 0x80) < 0x80"
proof -
  have e: "(NOT 0x80 :: byte) = 0x7F" by simp
  have "x AND NOT 0x80 \<le> 0x7F" unfolding e by (rule word_and_le1)
  also have "(0x7F::byte) < 0x80" by simp
  finally show ?thesis .
qed

lemma read_bytes_state: "snd (read_bytes env n st) = log_event (Read n) st"
  by (simp add: read_bytes_def Let_def split: option.splits list.splits)

lemma read_bytes_Inr:
  "fst (read_bytes env n st) = Inr payload \<Longrightarrow>
   \<exists>res response. file_read env (trace st) n = Some res
     \<and> filter (\<lambda>x. x \<noteq> 0) res = 1 # response
     \<and> payload = map (\<lambda>x. x AND NOT 0x80) response"
  by (auto simp: read_bytes_def Let_def split: option.splits list.splits if_splits)

lemma decode_utf8_ascii:
  "list_all (\<lambda>b. b < 0x80) bs \<Longrightarrow> decode_utf8 bs = Inr (map unat bs)"
  by (induction bs) (simp_all add: cons_cp_def)

lemma read_Inl: "fst (read_bytes env n st) = Inl e \<Longrightarrow> fst (read env n st) = Inl e"
  by (cases "read_bytes env n st") (auto simp: read_def)

lemma read_Inr:
  "fst (read_bytes env n st) = Inr bs \<Longrightarrow> fst (read env n st) = decode_utf8 bs"
  by (cases "read_bytes env n st") (auto simp: read_def)

lemma query_Inl: "fst (query_bytes env s st) = Inl e \<Longrightarrow> fst (query env s st) = Inl e"
  by (cases "query_bytes env s st") (auto simp: query_def)

lemma query_Inr:
  "fst (query_bytes env s st) = Inr bs \<Longrightarrow> fst (query env s st) = decode_utf8 bs"
  by (cases "query_bytes env s st") (auto simp: query_def)

lemma query_state: "snd (query env s st) = snd (query_bytes env s st)"
  by (cases "query_bytes env s st") (auto simp: query_def split: sum.splits)

lemma file_read_const [simp]: "file_read (const_bus r) tr n = map_option (take n) r"
  by (simp add: file_read_def const_bus_def)

lemma encode_utf8_append:
  "encode_utf8 s = Inr bs \<Longrightarrow> encode_utf8 t = Inr cs \<Longrightarrow> encode_utf8 (s @ t) = Inr (bs @ cs)"
  by (induction s arbitrary: bs) (auto split: sum.splits)

lemma encode_utf8_null: "encode_utf8 s = Inr bs \<Longrightarrow> encode_utf8 (s @ [0]) = Inr (bs @ [0])"
  using encode_utf8_append [of s bs "[0]" "[0]"] by (simp add: utf8_of_cp_def)

lemma encode_utf8_ascii: "is_ascii s \<Longrightarrow> encode_utf8 s = Inr (map of_nat s)"
  by (induction s) (simp_all add: is_ascii_def utf8_of_cp_def)

lemma read_bytes_payload_ascii:
  assumes "fst (read_bytes env n st) = Inr payload"
  shows "list_all (\<lambda>b. b < 0x80) payload"
proof -
  from assms obtain response where "payload = map (\<lambda>x. x AND NOT 0x80) response"
    using read_bytes_Inr by blast
  then show ?thesis using msb_clear_less by (simp add: list_all_iff)
qed

lemma read_bytes_no_decode_error: "fst (read_bytes env n st) \<noteq> Inl UnicodeDecodeError"
  by (simp add: read_bytes_def Let_def split: option.splits list.splits)

lemma encode_utf8_error: "encode_utf8 s = Inl e \<Longrightarrow> e = UnicodeEncodeError"
  by (induction s arbitrary: e) (auto simp: utf8_of_cp_def split: sum.splits if_splits)

lemma write_no_decode_error: "fst (write env s st) \<noteq> Inl UnicodeDecodeError"
  by (auto simp: write_def split: sum.splits dest: encode_utf8_error)

lemma query_bytes_outcome:
  "(\<exists>e. fst (query_bytes env s st) = Inl e \<and> fst (write env s st) = Inl e)
   \<or> fst (query_bytes env s st) = Inl (Exception ''sleep mode'')
   \<or> (\<exists>st1. fst (query_bytes env s st) = fst (read_bytes env 31 st1))"
  by (cases "write env s st") (auto simp: query_bytes_def Let_def split: sum.splits)

lemma query_bytes_no_decode_error: "fst (query_bytes env s st) \<noteq> Inl UnicodeDecodeError"
  using query_bytes_outcome [of env s st] write_no_decode_error [of env s st]
    read_bytes_no_decode_error [of env 31]
  by auto

lemma query_bytes_payload_ascii:
  assumes "fst (query_bytes env s st) = Inr payload"
  shows "list_all (\<lambda>b. b < 0x80) payload"
  using query_bytes_outcome [of env s st] assms read_bytes_payload_ascii [of env 31]
  by auto

lemma write_const_bus:
  "encode_utf8 (s @ [0]) = Inr bs \<Longrightarrow>
   write (const_bus r) s st = (Inr (), log_event (Write bs) st)"
  by (simp add: write_def const_bus_def)

lemma upper_length [simp]: "length (upper s) = length s"
  by (simp add: upper_def)

lemma startswith_sleep_not_long:
  assumes "startswith u (str_of ''SLEEP'')"
  shows "\<not> startswith u (str_of ''R'') \<and> \<not> startswith u (str_of ''CAL'')"
proof (cases u)
  case Nil
  with assms show ?thesis by (simp add: startswith_def str_of_def)
next
  case (Cons c cs)
  with assms have "c = 83" by (simp add: startswith_def str_of_def)
  with Cons show ?thesis by (simp add: startswith_def str_of_def)
qed

lemma write_ascii:
  assumes "is_ascii s"
  shows "write env s st =
           (if write_ok env (trace st) (map of_nat s @ [0]) then Inr () else Inl IOError,
            log_event (Write (map of_nat s @ [0])) st)"
  using encode_utf8_null [OF encode_utf8_ascii [OF assms]] by (simp add: write_def)

lemma bound_to_append:
  "bound_to bind cur (xs @ ys) = bound_to bind (bound_to bind cur xs) ys"
  by (induction xs arbitrary: cur) simp_all

lemma set_i2c_address_mock_ok:
  "bind a \<Longrightarrow>
   set_i2c_address (mock_bus bind resp) a st =
     (Inr (), \<lparr>current_addr = a,
              trace = trace st @ [Ioctl FileRead I2C_SLAVE a, Ioctl FileWrite I2C_SLAVE a]\<rparr>)"
  by (simp add: set_i2c_address_def mock_bus_def log_event_def Let_def)

lemma set_i2c_address_mock_fail:
  "\<not> bind a \<Longrightarrow>
   set_i2c_address (mock_bus bind resp) a st =
     (Inl IOError, log_event (Ioctl FileRead I2C_SLAVE a) st)"
  by (simp add: set_i2c_address_def mock_bus_def Let_def)

lemma file_read_mock_bound:
  "bind a \<Longrightarrow>
   file_read (mock_bus bind resp)
     (tr @ [Ioctl FileRead I2C_SLAVE a, Ioctl FileWrite I2C_SLAVE a]) n
   = map_option (take n) (resp a)"
  by (simp add: file_read_def mock_bus_def bound_to_append)

lemma read_bytes_success_frame:
  "file_read env (trace st) n = Some res \<Longrightarrow> success_frame res \<Longrightarrow>
   \<exists>payload. read_bytes env n st = (Inr payload, log_event (Read n) st)"
  by (auto simp: read_bytes_def success_frame_def Let_def split: list.splits)

lemma read_bytes_io_error:
  "file_read env (trace st) n = None \<Longrightarrow>
   read_bytes env n st = (Inl IOError, log_event (Read n) st)"
  by (simp add: read_bytes_def Let_def)

lemma sweep_mock:
  assumes "io_failures_only bind resp as"
  shows "fst (sweep (mock_bus bind resp) as devs st) = Inr (devs @ filter (answers bind resp) as)
       \<and> trace (snd (sweep (mock_bus bind resp) as devs st))
           = trace st @ concat (map (probe_calls bind) as)"
  using assms
proof (induction as arbitrary: devs st)
  case Nil
  then show ?case by simp
next
  case (Cons a as)
  from Cons.prems have rest: "io_failures_only bind resp as"
    and here: "answers bind resp a \<or> \<not> bind a \<or> resp a = None"
    by (simp_all add: io_failures_only_def)
  let ?st1 = "\<lparr>current_addr = a,
              trace = trace st @ [Ioctl FileRead I2C_SLAVE a, Ioctl FileWrite I2C_SLAVE a]\<rparr>"
  show ?case
  proof (cases "bind a")
    case False
    then have "\<not> answers bind resp a" by (simp add: answers_def)
    with False Cons.IH [OF rest] show ?thesis
      by (simp add: set_i2c_address_mock_fail probe_calls_def log_event_def)
  next
    case True
    show ?thesis
    proof (cases "resp a")
      case None
      then have na: "\<not> answers bind resp a" by (simp add: answers_def)
      have "file_read (mock_bus bind resp) (trace ?st1) 31 = None"
        using file_read_mock_bound [of bind a, OF True, of resp "trace st" 31] None by simp
      from read_bytes_io_error [OF this] na True Cons.IH [OF rest] show ?thesis
        by (simp add: set_i2c_address_mock_ok probe_calls_def log_event_def)
    next
      case (Some res)
      with here True have ans: "answers bind resp a" and ok: "success_frame (take 31 res)"
        by (simp_all add: answers_def)
      have "file_read (mock_bus bind resp) (trace ?st1) 31 = Some (take 31 res)"
        using file_read_mock_bound [of bind a, OF True, of resp "trace st" 31] Some by simp
      from read_bytes_success_frame [OF this ok] obtain payload where
        "read_bytes (mock_bus bind resp) 31 ?st1 = (Inr payload, log_event (Read 31) ?st1)"
        by blast
      with ans True Cons.IH [OF rest] show ?thesis
        by (simp add: set_i2c_address_mock_ok probe_calls_def log_event_def)
    qed
  qed
qed

lemma answers_two_devices: "answers any_address two_devices a \<longleftrightarrow> a = 99 \<or> a = 100"
  by (simp add: answers_def two_devices_def any_address_def success_frame_def)

lemma list_i2c_devices_return_restores:
  assumes "fst (list_i2c_devices env st) = Inr devs"
  shows "current_addr (snd (list_i2c_devices env st)) = current_addr st"
  using assms
  by (auto simp: list_i2c_devices_def Let_def set_i2c_address_def log_event_def
           split: prod.splits sum.splits if_splits)

subsection \<open>Sleep commands\<close>

text \<open>
  Claim C1, as amended. For an ASCII command whose upper-cased form begins with SLEEP,
  \<^verbatim>\<open>query_bytes\<close> and \<^verbatim>\<open>query\<close> first hand the command bytes and the null byte to
  the write stream, and nothing else happens on the bus: when the write succeeded they
  raise \<^verbatim>\<open>Exception("sleep mode")\<close> with no delay and no read, and when it failed they
  raise \<^verbatim>\<open>IOError\<close>.
\<close>

theorem query_sleep_after_write:
  assumes "is_ascii s" and "startswith (upper s) (str_of ''SLEEP'')"
  shows "snd (query_bytes env s st) = log_event (Write (map of_nat s @ [0])) st
       \<and> fst (query_bytes env s st) =
           (if write_ok env (trace st) (map of_nat s @ [0])
            then Inl (Exception ''sleep mode'') else Inl IOError)
       \<and> snd (query env s st) = log_event (Write (map of_nat s @ [0])) st
       \<and> fst (query env s st) =
           (if write_ok env (trace st) (map of_nat s @ [0])
            then Inl (Exception ''sleep mode'') else Inl IOError)"
proof -
  have qb: "query_bytes env s st =
        (if write_ok env (trace st) (map of_nat s @ [0])
         then Inl (Exception ''sleep mode'') else Inl IOError,
         log_event (Write (map of_nat s @ [0])) st)"
    using startswith_sleep_not_long [OF assms(2)] assms(2)
    by (simp add: query_bytes_def write_ascii [OF assms(1)] Let_def)
  then show ?thesis by (simp add: query_def)
qed

theorem query_sleep_after_write_witness:
  "is_ascii (str_of ''sleep,1'') \<and> startswith (upper (str_of ''sleep,1'')) (str_of ''SLEEP'')
   \<and> fst (query (const_bus None) (str_of ''sleep,1'') opened) = Inl (Exception ''sleep mode'')
   \<and> trace (snd (query (const_bus None) (str_of ''sleep,1'') opened))
       = trace opened @ [Write [0x73, 0x6C, 0x65, 0x65, 0x70, 0x2C, 0x31, 0]]"
proof -
  have a: "is_ascii (str_of ''sleep,1'')" by (simp add: is_ascii_def str_of_def)
  have p: "startswith (upper (str_of ''sleep,1'')) (str_of ''SLEEP'')"
    by (simp add: startswith_def upper_def upper_cp_def str_of_def)
  from query_sleep_after_write [OF a p, of "const_bus None" opened] a p
  show ?thesis by (simp add: const_bus_def log_event_def str_of_def)
qed

text \<open>
  The claim C1 as it was stated fails: the command SLEEP is written to the stream before
  the exception is raised.
\<close>

theorem query_sleep_writes_counterexample:
  "fst (query_bytes (const_bus None) (str_of ''SLEEP'') opened) = Inl (Exception ''sleep mode'')
   \<and> trace (snd (query_bytes (const_bus None) (str_of ''SLEEP'') opened))
       = trace opened @ [Write [0x53, 0x4C, 0x45, 0x45, 0x50, 0]]"
  by (simp add: query_bytes_def write_def const_bus_def log_event_def Let_def
        str_of_def utf8_of_cp_def startswith_def upper_def upper_cp_def)

subsection \<open>Bit 7 of the payload\<close>

text \<open>
  Claim C2. Whenever \<^verbatim>\<open>read_bytes\<close> returns a payload (the first byte of the frame
  that is not null is 1), every byte \<open>b\<close> of the payload has bit 7 cleared:
  \<open>b AND 0x80 = 0\<close>.
\<close>

theorem read_bytes_msb_cleared:
  assumes "fst (read_bytes env n st) = Inr payload" and "b \<in> set payload"
  shows "b AND 0x80 = 0"
proof -
  from assms(1) obtain response where "payload = map (\<lambda>x. x AND NOT 0x80) response"
    using read_bytes_Inr by blast
  with assms(2) obtain x where "b = x AND NOT 0x80" by auto
  then show ?thesis using msb_clear [of x] by simp
qed

theorem read_bytes_msb_cleared_witness:
  "fst (read_bytes (const_bus (Some [0, 1, 0xBF, 0, 0xB1])) 31 opened) = Inr [0x3F, 0x31]
   \<and> (0x31::byte) \<in> set [0x3F, 0x31] \<and> (0x31::byte) AND 0x80 = 0"
proof -
  have r: "fst (read_bytes (const_bus (Some [0, 1, 0xBF, 0, 0xB1])) 31 opened) = Inr [0x3F, 0x31]"
    by (simp add: read_bytes_def Let_def)
  have m: "(0x31::byte) \<in> set [0x3F, 0x31]" by simp
  from read_bytes_msb_cleared [OF r m] r m show ?thesis by simp
qed

subsection \<open>Status codes other than 1\<close>

text \<open>
  Claim C3. When the first byte of the frame that is not null is a code other than 1,
  \<^verbatim>\<open>read_bytes\<close> and \<^verbatim>\<open>read\<close> raise the exception whose message names that code
  and return no payload. The same holds of \<^verbatim>\<open>query_bytes\<close> and \<^verbatim>\<open>query\<close> for an
  ASCII command when the read they make, after the write and the delay of the command,
  returns such a frame: they return no payload, and once the write has succeeded and
  the command is no sleep command they raise the exception that names the code.
\<close>

theorem read_bytes_error_code:
  assumes "filter (\<lambda>x. x \<noteq> 0) res = code # rest" and "code \<noteq> 1"
  shows "(file_read env (trace st) n = Some res \<longrightarrow>
            fst (read_bytes env n st) = Inl (Exception (''Error '' @ format_nat (unat code)))
          \<and> fst (read env n st) = Inl (Exception (''Error '' @ format_nat (unat code))))
       \<and> (is_ascii s
          \<and> file_read env
               (trace st @ [Write (map of_nat s @ [0]),
                            Sleep (if startswith (upper s) (str_of ''R'')
                                      \<or> startswith (upper s) (str_of ''CAL'')
                                   then 3 / 2 else 1 / 2)]) 31 = Some res \<longrightarrow>
            (\<forall>payload. fst (query_bytes env s st) \<noteq> Inr payload)
          \<and> (\<forall>reply. fst (query env s st) \<noteq> Inr reply)
          \<and> (write_ok env (trace st) (map of_nat s @ [0])
             \<and> \<not> startswith (upper s) (str_of ''SLEEP'') \<longrightarrow>
               fst (query_bytes env s st) = Inl (Exception (''Error '' @ format_nat (unat code)))
             \<and> fst (query env s st) = Inl (Exception (''Error '' @ format_nat (unat code)))))"
proof -
  let ?err = "Inl (Exception (''Error '' @ format_nat (unat code)))"
  let ?w = "Write (map of_nat s @ [0])"
  let ?long = "startswith (upper s) (str_of ''R'') \<or> startswith (upper s) (str_of ''CAL'')"
  have rb: "fst (read_bytes env m st') = ?err" if "file_read env (trace st') m = Some res" for m st'
    using that assms by (simp add: read_bytes_def Let_def)
  have part1: "fst (read_bytes env n st) = ?err \<and> fst (read env n st) = ?err"
    if "file_read env (trace st) n = Some res"
    using rb [OF that] read_Inl by metis
  have part2: "(\<forall>payload. fst (query_bytes env s st) \<noteq> Inr payload)
          \<and> (\<forall>reply. fst (query env s st) \<noteq> Inr reply)
          \<and> (write_ok env (trace st) (map of_nat s @ [0])
             \<and> \<not> startswith (upper s) (str_of ''SLEEP'') \<longrightarrow>
               fst (query_bytes env s st) = ?err \<and> fst (query env s st) = ?err)"
    if asc: "is_ascii s"
      and fr: "file_read env (trace st @ [?w, Sleep (if ?long then 3 / 2 else 1 / 2)]) 31 = Some res"
  proof -
    have long: "fst (read_bytes env 31 (log_event (Sleep long_timeout) (log_event ?w st))) = ?err"
      if "?long"
      using that fr by (intro rb) (simp add: log_event_def long_timeout_def)
    have short: "fst (read_bytes env 31 (log_event (Sleep short_timeout) (log_event ?w st))) = ?err"
      if "\<not> ?long"
      using that fr by (intro rb) (simp add: log_event_def short_timeout_def)
    have q: "\<exists>e. fst (query_bytes env s st) = Inl e"
      using long short by (auto simp: query_bytes_def write_ascii [OF asc] Let_def)
    then obtain e where e: "fst (query_bytes env s st) = Inl e" by blast
    have a: "\<forall>payload. fst (query_bytes env s st) \<noteq> Inr payload" using e by simp
    have b: "\<forall>reply. fst (query env s st) \<noteq> Inr reply" using query_Inl [OF e] by simp
    have c: "fst (query_bytes env s st) = ?err"
      if "write_ok env (trace st) (map of_nat s @ [0])"
         "\<not> startswith (upper s) (str_of ''SLEEP'')"
      using that long short by (auto simp: query_bytes_def write_ascii [OF asc] Let_def)
    show ?thesis using a b c query_Inl by blast
  qed
  show ?thesis using part1 part2 by blast
qed

theorem read_bytes_error_code_witness:
  "filter (\<lambda>x. x \<noteq> 0) [0, 2, 0xC1 :: byte] = 2 # [0xC1] \<and> (2::byte) \<noteq> 1
   \<and> file_read (mock_bus any_address syntax_error_device) (trace opened) 31 = Some [0, 2, 0xC1]
   \<and> is_ascii (str_of ''I'')
   \<and> file_read (mock_bus any_address syntax_error_device)
        (trace opened @ [Write (map of_nat (str_of ''I'') @ [0]), Sleep (1 / 2)]) 31
       = Some [0, 2, 0xC1]
   \<and> write_ok (mock_bus any_address syntax_error_device) (trace opened)
        (map of_nat (str_of ''I'') @ [0])
   \<and> \<not> startswith (upper (str_of ''I'')) (str_of ''R'')
   \<and> \<not> startswith (upper (str_of ''I'')) (str_of ''CAL'')
   \<and> \<not> startswith (upper (str_of ''I'')) (str_of ''SLEEP'')
   \<and> fst (read_bytes (mock_bus any_address syntax_error_device) 31 opened)
       = Inl (Exception ''Error 2'')
   \<and> fst (read (mock_bus any_address syntax_error_device) 31 opened)
       = Inl (Exception ''Error 2'')
   \<and> fst (query_bytes (mock_bus any_address syntax_error_device) (str_of ''I'') opened)
       = Inl (Exception ''Error 2'')
   \<and> fst (query (mock_bus any_address syntax_error_device) (str_of ''I'') opened)
       = Inl (Exception ''Error 2'')"
proof -
  let ?env = "mock_bus any_address syntax_error_device"
  have f: "filter (\<lambda>x. x \<noteq> 0) [0, 2, 0xC1 :: byte] = 2 # [0xC1]" by simp
  have c: "(2::byte) \<noteq> 1" by simp
  have r: "file_read ?env (trace opened) 31 = Some [0, 2, 0xC1]"
    by (simp add: file_read_def mock_bus_def opened_def any_address_def
          syntax_error_device_def default_address_def)
  have a: "is_ascii (str_of ''I'')" by (simp add: is_ascii_def str_of_def)
  have p: "\<not> startswith (upper (str_of ''I'')) (str_of ''R'')
         \<and> \<not> startswith (upper (str_of ''I'')) (str_of ''CAL'')
         \<and> \<not> startswith (upper (str_of ''I'')) (str_of ''SLEEP'')"
    by (simp add: startswith_def upper_def str_of_def upper_cp_def)
  have q: "file_read ?env
        (trace opened @ [Write (map of_nat (str_of ''I'') @ [0]), Sleep (1 / 2)]) 31
       = Some [0, 2, 0xC1]"
    by (simp add: file_read_def mock_bus_def opened_def any_address_def
          syntax_error_device_def default_address_def)
  have w: "write_ok ?env (trace opened) (map of_nat (str_of ''I'') @ [0])"
    by (simp add: mock_bus_def)
  have d: "format_nat (unat (2::byte)) = ''2''" by (simp add: format_nat.simps)
  from read_bytes_error_code [OF f c, of ?env opened 31 "str_of ''I''"] r a p q w d f c
  show ?thesis by simp
qed

subsection \<open>Frames without a status byte\<close>

text \<open>
  Claim C4. A frame with no byte left once the null bytes are removed (the empty frame
  and the frame of null bytes alike) makes \<^verbatim>\<open>read_bytes\<close> and \<^verbatim>\<open>read\<close> raise
  (\<^verbatim>\<open>StopIteration\<close>, from \<^verbatim>\<open>next\<close>); no payload is returned.
\<close>

theorem read_bytes_empty_frame:
  assumes "file_read env (trace st) n = Some res"
      and "filter (\<lambda>x. x \<noteq> 0) res = []"
  shows "fst (read_bytes env n st) = Inl StopIteration
       \<and> fst (read env n st) = Inl StopIteration"
proof -
  have "fst (read_bytes env n st) = Inl StopIteration"
    using assms by (simp add: read_bytes_def Let_def)
  then show ?thesis using read_Inl by blast
qed

theorem read_bytes_empty_frame_witness:
  "file_read (const_bus (Some [0, 0, 0])) (trace opened) 31 = Some [0, 0, 0]
   \<and> filter (\<lambda>x. x \<noteq> 0) [0, 0, 0 :: byte] = []
   \<and> fst (read_bytes (const_bus (Some [0, 0, 0])) 31 opened) = Inl StopIteration
   \<and> fst (read (const_bus (Some [0, 0, 0])) 31 opened) = Inl StopIteration"
proof -
  have r: "file_read (const_bus (Some [0, 0, 0])) (trace opened) 31 = Some [0, 0, 0]"
    by simp
  have f: "filter (\<lambda>x. x \<noteq> 0) [0, 0, 0 :: byte] = []" by simp
  from read_bytes_empty_frame [OF r f] r f show ?thesis by simp
qed

subsection \<open>Delays\<close>

text \<open>
  Claim C5. Once the write of an ASCII command has succeeded, \<^verbatim>\<open>query\<close> sleeps 1.5
  seconds before its read of 31 bytes when the upper-cased command begins with R or with
  CAL, and 0.5 seconds when it begins with none of R, CAL and SLEEP. The two delays do
  not depend on anything the caller passes.
\<close>

theorem query_delay_classes:
  assumes "is_ascii s" and "write_ok env (trace st) (map of_nat s @ [0])"
  shows "(startswith (upper s) (str_of ''R'') \<or> startswith (upper s) (str_of ''CAL'') \<longrightarrow>
            trace (snd (query env s st))
              = trace st @ [Write (map of_nat s @ [0]), Sleep (3 / 2), Read 31])
       \<and> (\<not> startswith (upper s) (str_of ''R'') \<and> \<not> startswith (upper s) (str_of ''CAL'')
          \<and> \<not> startswith (upper s) (str_of ''SLEEP'') \<longrightarrow>
            trace (snd (query env s st))
              = trace st @ [Write (map of_nat s @ [0]), Sleep (1 / 2), Read 31])"
  using assms(2)
  by (simp add: query_state query_bytes_def write_ascii [OF assms(1)] Let_def
        read_bytes_state log_event_def long_timeout_def short_timeout_def)

theorem query_delay_classes_witness:
  "is_ascii (str_of ''Cal,low,4'') \<and> is_ascii (str_of ''L,1'')
   \<and> write_ok (const_bus None) (trace opened) (map of_nat (str_of ''Cal,low,4'') @ [0])
   \<and> write_ok (const_bus None) (trace opened) (map of_nat (str_of ''L,1'') @ [0])
   \<and> startswith (upper (str_of ''Cal,low,4'')) (str_of ''CAL'')
   \<and> \<not> startswith (upper (str_of ''L,1'')) (str_of ''R'')
   \<and> \<not> startswith (upper (str_of ''L,1'')) (str_of ''CAL'')
   \<and> \<not> startswith (upper (str_of ''L,1'')) (str_of ''SLEEP'')
   \<and> trace (snd (query (const_bus None) (str_of ''Cal,low,4'') opened))
     = trace opened @ [Write [0x43, 0x61, 0x6C, 0x2C, 0x6C, 0x6F, 0x77, 0x2C, 0x34, 0],
                       Sleep (3 / 2), Read 31]
   \<and> trace (snd (query (const_bus None) (str_of ''L,1'') opened))
     = trace opened @ [Write [0x4C, 0x2C, 0x31, 0], Sleep (1 / 2), Read 31]"
proof -
  have a1: "is_ascii (str_of ''Cal,low,4'')" by (simp add: is_ascii_def str_of_def)
  have a2: "is_ascii (str_of ''L,1'')" by (simp add: is_ascii_def str_of_def)
  have w: "write_ok (const_bus None) tr bs" for tr bs by (simp add: const_bus_def)
  have p1: "startswith (upper (str_of ''Cal,low,4'')) (str_of ''CAL'')"
    by (simp add: startswith_def upper_def upper_cp_def str_of_def)
  have p2: "\<not> startswith (upper (str_of ''L,1'')) (str_of ''R'')
          \<and> \<not> startswith (upper (str_of ''L,1'')) (str_of ''CAL'')
          \<and> \<not> startswith (upper (str_of ''L,1'')) (str_of ''SLEEP'')"
    by (simp add: startswith_def upper_def upper_cp_def str_of_def)
  from query_delay_classes [OF a1 w, of opened] query_delay_classes [OF a2 w, of opened]
    a1 a2 w p1 p2
  show ?thesis by (simp add: str_of_def)
qed

subsection \<open>The address sweep\<close>

text \<open>
  Claim C6. On a bus where the outcome depends on the address alone and where no
  address between 0 and 127 raises anything but \<^verbatim>\<open>IOError\<close>, \<^verbatim>\<open>list_i2c_devices\<close>
  called with a recorded address that the system accepts tries the addresses 0 to 127
  in ascending order (a refused address is not read), returns in ascending order the
  addresses that were accepted and whose read returned a payload, and leaves the
  recorded address as it was before the call, both streams bound to it again.
\<close>

theorem list_i2c_devices_probe:
  assumes "io_failures_only bind resp [0..127]" and "bind (current_addr st)"
  shows "fst (list_i2c_devices (mock_bus bind resp) st)
           = Inr (filter (answers bind resp) [0..127])
       \<and> sorted_wrt (<) (filter (answers bind resp) [0..127])
       \<and> current_addr (snd (list_i2c_devices (mock_bus bind resp) st)) = current_addr st
       \<and> trace (snd (list_i2c_devices (mock_bus bind resp) st))
           = trace st @ concat (map (probe_calls bind) [0..127])
               @ [Ioctl FileRead I2C_SLAVE (current_addr st),
                  Ioctl FileWrite I2C_SLAVE (current_addr st)]"
proof -
  obtain r st1 where sw: "sweep (mock_bus bind resp) [0..127] [] st = (r, st1)"
    by (cases "sweep (mock_bus bind resp) [0..127] [] st")
  with sweep_mock [OF assms(1), of "[]" st]
  have r: "r = Inr (filter (answers bind resp) [0..127])"
    and t: "trace st1 = trace st @ concat (map (probe_calls bind) [0..127])"
    by simp_all
  have "sorted_wrt (<) (filter (answers bind resp) [0..127])"
    by (rule sorted_wrt_filter) simp
  then show ?thesis
    unfolding list_i2c_devices_def Let_def sw r
    by (simp add: t set_i2c_address_mock_ok [of bind "current_addr st", OF assms(2)])
qed

theorem list_i2c_devices_probe_witness:
  "io_failures_only any_address two_devices [0..127] \<and> any_address (current_addr opened)
   \<and> fst (list_i2c_devices (mock_bus any_address two_devices) opened) = Inr [99, 100]
   \<and> current_addr (snd (list_i2c_devices (mock_bus any_address two_devices) opened)) = 99"
proof -
  have h: "io_failures_only any_address two_devices [0..127]"
    by (simp add: io_failures_only_def list_all_iff answers_two_devices two_devices_def)
  have b: "any_address (current_addr opened)" by (simp add: any_address_def)
  have f: "filter (answers any_address two_devices) [0..127] = [99, 100]"
    by (simp add: answers_two_devices upto_rec1)
  from list_i2c_devices_probe [OF h b] f h b show ?thesis
    by (simp add: opened_def default_address_def)
qed

subsection \<open>Restoring the address\<close>

text \<open>
  Claim C7. \<^verbatim>\<open>list_i2c_devices\<close> saves the recorded address in order to restore it,
  and restores it when it returns its list (\<open>list_i2c_devices_return_restores\<close>), but
  not when an attempt raises something other than \<^verbatim>\<open>IOError\<close>: called with the address
  99 on a bus where the device at 0 answers with the status 255, it binds both streams
  to 0, reads, raises \<^verbatim>\<open>Exception("Error 255")\<close> and leaves 0 as the recorded address.
\<close>

theorem list_i2c_devices_abort_keeps_probed_address:
  "current_addr opened = 99
   \<and> fst (list_i2c_devices (const_bus (Some [255])) opened) = Inl (Exception ''Error 255'')
   \<and> current_addr (snd (list_i2c_devices (const_bus (Some [255])) opened)) = 0
   \<and> trace (snd (list_i2c_devices (const_bus (Some [255])) opened))
       = trace opened @ [Ioctl FileRead I2C_SLAVE 0, Ioctl FileWrite I2C_SLAVE 0, Read 31]"
proof -
  have u: "[0..127] = 0 # [1..127]" by (simp add: upto_rec1)
  have s: "set_i2c_address (const_bus (Some [255])) 0 st
      = (Inr (), \<lparr>current_addr = 0,
                 trace = trace st @ [Ioctl FileRead I2C_SLAVE 0, Ioctl FileWrite I2C_SLAVE 0]\<rparr>)"
    for st
    by (simp add: set_i2c_address_def const_bus_def log_event_def Let_def)
  have f: "format_nat 255 = ''255''" by (simp add: format_nat.simps)
  have r: "read_bytes (const_bus (Some [255])) 31 st
      = (Inl (Exception ''Error 255''), log_event (Read 31) st)" for st
    by (simp add: read_bytes_def Let_def f)
  show ?thesis
    unfolding list_i2c_devices_def u
    by (simp add: s r log_event_def opened_def default_address_def)
qed

subsection \<open>The bytes written\<close>

text \<open>
  Claim C8. \<^verbatim>\<open>write\<close> hands to the write stream the UTF-8 bytes of the command
  followed by one null byte and nothing else, whether the stream then accepts them or
  raises \<^verbatim>\<open>IOError\<close>.
\<close>

theorem write_appends_null:
  assumes "encode_utf8 s = Inr bs"
  shows "trace (snd (write env s st)) = trace st @ [Write (bs @ [0])]
       \<and> (fst (write env s st) = Inr () \<or> fst (write env s st) = Inl IOError)"
  using encode_utf8_null [OF assms] by (simp add: write_def log_event_def)

theorem write_appends_null_witness:
  "encode_utf8 (str_of ''L,1'') = Inr [0x4C, 0x2C, 0x31]
   \<and> trace (snd (write (const_bus None) (str_of ''L,1'') opened))
       = trace opened @ [Write [0x4C, 0x2C, 0x31, 0]]"
proof -
  have e: "encode_utf8 (str_of ''L,1'') = Inr [0x4C, 0x2C, 0x31]"
    by (simp add: str_of_def utf8_of_cp_def)
  from write_appends_null [OF e, of "const_bus None" opened] e show ?thesis by simp
qed

subsection \<open>Selecting an address\<close>

text \<open>
  Claim C9. \<^verbatim>\<open>set_i2c_address\<close> succeeds exactly when the bind of the read stream
  and then the bind of the write stream succeed, and only then is \<^verbatim>\<open>current_addr\<close>
  the new address; when either bind fails the call raises and \<^verbatim>\<open>current_addr\<close> is
  what it was.
\<close>

theorem set_i2c_address_records_after_binds:
  "(fst (set_i2c_address env addr st) = Inr () \<longleftrightarrow>
      ioctl_ok env (trace st) FileRead addr
      \<and> ioctl_ok env (trace st @ [Ioctl FileRead I2C_SLAVE addr]) FileWrite addr)
   \<and> (fst (set_i2c_address env addr st) = Inr () \<longrightarrow>
        current_addr (snd (set_i2c_address env addr st)) = addr)
   \<and> (fst (set_i2c_address env addr st) \<noteq> Inr () \<longrightarrow>
        fst (set_i2c_address env addr st) = Inl IOError
        \<and> current_addr (snd (set_i2c_address env addr st)) = current_addr st)"
  by (simp add: set_i2c_address_def Let_def log_event_def)

theorem set_i2c_address_records_after_binds_witness:
  "fst (set_i2c_address (mock_bus (\<lambda>a. a \<le> 127) two_devices) 100 opened) = Inr ()
   \<and> current_addr (snd (set_i2c_address (mock_bus (\<lambda>a. a \<le> 127) two_devices) 100 opened)) = 100
   \<and> fst (set_i2c_address (mock_bus (\<lambda>a. a \<le> 127) two_devices) 200 opened) = Inl IOError
   \<and> current_addr (snd (set_i2c_address (mock_bus (\<lambda>a. a \<le> 127) two_devices) 200 opened)) = 99"
  using set_i2c_address_records_after_binds [of "mock_bus (\<lambda>a. a \<le> 127) two_devices" 100 opened]
        set_i2c_address_records_after_binds [of "mock_bus (\<lambda>a. a \<le> 127) two_devices" 200 opened]
  by (simp add: mock_bus_def opened_def default_address_def)

subsection \<open>Decoding the payload\<close>

text \<open>
  Claim C10. A payload returned by \<^verbatim>\<open>read_bytes\<close> or \<^verbatim>\<open>query_bytes\<close> is ASCII,
  so decoding it as UTF-8 succeeds and gives its bytes as code points: \<^verbatim>\<open>read\<close> and
  \<^verbatim>\<open>query\<close> never raise \<^verbatim>\<open>UnicodeDecodeError\<close>.
\<close>

theorem decode_never_fails:
  "(fst (read_bytes env n st) = Inr payload \<longrightarrow>
      decode_utf8 payload = Inr (map unat payload)
      \<and> fst (read env n st) = Inr (map unat payload))
   \<and> (fst (query_bytes env s st) = Inr payload \<longrightarrow>
      decode_utf8 payload = Inr (map unat payload)
      \<and> fst (query env s st) = Inr (map unat payload))
   \<and> fst (read env n st) \<noteq> Inl UnicodeDecodeError
   \<and> fst (query env s st) \<noteq> Inl UnicodeDecodeError"
proof -
  have r: "decode_utf8 payload = Inr (map unat payload)
           \<and> fst (read env n st) = Inr (map unat payload)"
    if "fst (read_bytes env n st) = Inr payload"
    using that read_Inr [OF that] decode_utf8_ascii [OF read_bytes_payload_ascii [OF that]]
    by simp
  have q: "decode_utf8 payload = Inr (map unat payload)
           \<and> fst (query env s st) = Inr (map unat payload)"
    if "fst (query_bytes env s st) = Inr payload"
    using that query_Inr [OF that] decode_utf8_ascii [OF query_bytes_payload_ascii [OF that]]
    by simp
  have nr: "fst (read env n st) \<noteq> Inl UnicodeDecodeError"
  proof (cases "fst (read_bytes env n st)")
    case (Inl e)
    then show ?thesis using read_Inl [OF Inl] read_bytes_no_decode_error [of env n st] by simp
  next
    case (Inr bs)
    then show ?thesis
      using read_Inr [OF Inr] decode_utf8_ascii [OF read_bytes_payload_ascii [OF Inr]] by simp
  qed
  have nq: "fst (query env s st) \<noteq> Inl UnicodeDecodeError"
  proof (cases "fst (query_bytes env s st)")
    case (Inl e)
    then show ?thesis using query_Inl [OF Inl] query_bytes_no_decode_error [of env s st] by simp
  next
    case (Inr bs)
    then show ?thesis
      using query_Inr [OF Inr] decode_utf8_ascii [OF query_bytes_payload_ascii [OF Inr]] by simp
  qed
  show ?thesis using r q nr nq by blast
qed

theorem decode_never_fails_witness:
  "fst (read_bytes (const_bus (Some [1, 0xBF, 0xC9, 0])) 31 opened) = Inr [0x3F, 0x49]
   \<and> fst (read (const_bus (Some [1, 0xBF, 0xC9, 0])) 31 opened) = Inr (str_of ''?I'')
   \<and> fst (query_bytes (const_bus (Some [1, 0xBF, 0xC9, 0])) (str_of ''I'') opened)
       = Inr [0x3F, 0x49]
   \<and> fst (query (const_bus (Some [1, 0xBF, 0xC9, 0])) (str_of ''I'') opened)
       = Inr (str_of ''?I'')"
proof -
  let ?env = "const_bus (Some [1, 0xBF, 0xC9, 0])"
  have r: "fst (read_bytes ?env 31 st) = Inr [0x3F, 0x49]" for st
    by (simp add: read_bytes_def Let_def)
  have e: "encode_utf8 (str_of ''I'' @ [0]) = Inr [0x49, 0]"
    by (simp add: str_of_def utf8_of_cp_def)
  have q: "fst (query_bytes ?env (str_of ''I'') opened) = Inr [0x3F, 0x49]"
    unfolding query_bytes_def write_const_bus [OF e]
    by (simp add: r startswith_def upper_def upper_cp_def str_of_def)
  from decode_never_fails [of ?env 31 opened "[0x3F, 0x49]" "str_of ''I''"] r [of opened] q
  show ?thesis by (simp add: str_of_def)
qed

end
